theory Spec2Isabelle
  imports Main "HOL-Library.Sublist"
begin

section \<open>Strings and clock readings as the pages use them\<close>

text \<open>
  A JavaScript string is a sequence of UTF-16 code units, here natural numbers (below
  \<open>2 ^ 16\<close>); \<open>js\<close> writes an ASCII literal as such a sequence. A string in a boolean
  position is true exactly when it is not empty, and \<open>null\<close>/\<open>undefined\<close> in such a
  position is \<open>None\<close>.
\<close>

type_synonym jsstring = "nat list"

definition js :: "string \<Rightarrow> jsstring" where
  "js s = map of_char s"

text \<open>
  What \<open>String.prototype.trim\<close> strips: the white space and the line terminators of
  ECMAScript, that is TAB, VT, FF, SP, NBSP, the byte order mark, the other space
  separators of Unicode, and LF, CR, LS, PS.
\<close>

definition whitespace :: "nat list" where
  "whitespace =
     [0x0009, 0x000B, 0x000C, 0x0020, 0x00A0, 0xFEFF,
      0x1680, 0x2000, 0x2001, 0x2002, 0x2003, 0x2004, 0x2005, 0x2006, 0x2007, 0x2008,
      0x2009, 0x200A, 0x202F, 0x205F, 0x3000,
      0x000A, 0x000D, 0x2028, 0x2029]"

definition trim :: "jsstring \<Rightarrow> jsstring" where
  "trim s = rev (dropWhile (\<lambda>c. c \<in> set whitespace) (rev (dropWhile (\<lambda>c. c \<in> set whitespace) s)))"

definition truthy :: "jsstring option \<Rightarrow> bool" where
  "truthy v = (case v of None \<Rightarrow> False | Some s \<Rightarrow> s \<noteq> [])"

text \<open>
  \<open>String.prototype.toUpperCase\<close> and \<open>toLowerCase\<close> are the platform's, with the case
  tables of Unicode behind them; the handlers that call them take them as a parameter.
  On a string of ASCII characters they are the two maps below.
\<close>

definition asciiUpperCase :: "jsstring \<Rightarrow> jsstring" where
  "asciiUpperCase s = map (\<lambda>c. if 97 \<le> c \<and> c \<le> 122 then c - 32 else c) s"

definition asciiLowerCase :: "jsstring \<Rightarrow> jsstring" where
  "asciiLowerCase s = map (\<lambda>c. if 65 \<le> c \<and> c \<le> 90 then c + 32 else c) s"

definition digits36 :: jsstring where
  "digits36 = js ''0123456789abcdefghijklmnopqrstuvwxyz''"

text \<open>\<open>Number.prototype.toString(radix)\<close> on a non-negative integer; the pages call it
  with radix 10 (the default) and 36 only.\<close>

function toStringRadix :: "nat \<Rightarrow> nat \<Rightarrow> jsstring" where
  "toStringRadix b n =
     (if b < 2 \<or> n < b then [digits36 ! n]
      else toStringRadix b (n div b) @ [digits36 ! (n mod b)])"
  by pat_completeness auto
termination
  by (relation "measure (\<lambda>(b, n). n)") auto

declare toStringRadix.simps [simp del]

text \<open>A value that is a string, \<open>null\<close> or \<open>undefined\<close>, where the difference shows, and
  the template literal \<open>`${v}`\<close> of it.\<close>

datatype js_text = Undefined | Null | Text jsstring

definition template :: "js_text \<Rightarrow> jsstring" where
  "template v = (case v of Undefined \<Rightarrow> js ''undefined'' | Null \<Rightarrow> js ''null'' | Text s \<Rightarrow> s)"

section \<open>The chat page: \<open>src/app/page.tsx\<close>\<close>

subsection \<open>Data\<close>

datatype Role = User | Assistant

text \<open>The interface \<open>Message\<close>; its field \<open>id\<close> is \<open>msg_id\<close> here, a \<open>Date\<close> is the clock
  reading in milliseconds, and the untyped reasoning steps are kept as text.\<close>

record Message =
  msg_id :: jsstring
  content :: jsstring
  role :: Role
  timestamp :: nat
  intermediateSteps :: "jsstring list option"

text \<open>A \<open>File\<close> object: compared by reference in the source, so it carries its identity.\<close>

datatype File = File (ref: nat) (name: jsstring)

datatype Status = Uploading | Completed | Error

text \<open>The interface \<open>FileUpload\<close>, with \<open>file\<close> as \<open>fileRef\<close> and \<open>message\<close> as
  \<open>statusMessage\<close>.\<close>

record FileUpload =
  fileRef :: File
  status :: Status
  statusMessage :: js_text

text \<open>The body of a backend answer after \<open>response.json()\<close>, when it is not \<open>null\<close>;
  every field but \<open>success\<close> may be missing, and \<open>success\<close> is read for its truth value.\<close>

record ResponseData =
  success :: bool
  response :: jsstring
  session_id :: "jsstring option"
  intermediate_steps :: "jsstring list option"
  error :: "jsstring option"
  message :: js_text

text \<open>
  What \<open>await fetch(...)\<close> followed by \<open>await response.json()\<close> gives: one of them
  throws, or the body is the JSON value \<open>null\<close>, of which no field can be read, or another
  body arrives.
\<close>

datatype fetch_result = Rejected | ResolvedNull | Resolved ResponseData

datatype MemoryType = Conversation | Semantic

datatype QueryRequest = QueryRequest (query_message: jsstring) (query_session_id: "jsstring option")

datatype UploadRequest = UploadRequest (upload_file: File) (upload_session_id: "jsstring option")

datatype ClearRequest = ClearRequest (clear_session_id: "jsstring option") (clear_type: MemoryType)

text \<open>
  The \<open>useState\<close> cells of \<open>CSInstructorPage\<close> that are ever written. \<open>crashed\<close> is not a
  cell: it is set when a state update throws while React renders, after which the page is
  unmounted; the cells then keep the values of the last render.
\<close>

record page_state =
  messages :: "Message list"
  inputMessage :: jsstring
  isLoading :: bool
  sessionId :: "jsstring option"
  files :: "FileUpload list"
  showAdvanced :: bool
  crashed :: bool

definition initial_state :: page_state where
  "initial_state =
     \<lparr>messages = [], inputMessage = [], isLoading = False, sessionId = None,
      files = [], showAdvanced = False, crashed = False\<rparr>"

subsection \<open>Mounting and the session identifier\<close>

definition welcomeContent :: jsstring where
  "welcomeContent =
     js ''Hello! I'' @ [0x27] @ js ''m your AI-powered CS lab instructor. I can help you with:''
     @ [0x0A, 0x0A]
     @ [0xD83D, 0xDC0D]
     @ js '' **Python Programming** - Execute code, debug, and explain concepts'' @ [0x0A]
     @ [0xD83D, 0xDCBB]
     @ js '' **Code Analysis** - Analyze and explain code in multiple languages  '' @ [0x0A]
     @ [0xD83D, 0xDD0D]
     @ js '' **Research** - Search for programming resources and documentation'' @ [0x0A]
     @ [0xD83D, 0xDCDA]
     @ js '' **Knowledge Base** - Access uploaded lab materials and documents''
     @ [0x0A, 0x0A]
     @ js ''Ask me questions, share code to analyze, or upload lab manuals and PDFs. ''
     @ js ''What would you like to learn today?''"

definition welcomeMessage :: "nat \<Rightarrow> Message" where
  "welcomeMessage now =
     \<lparr>msg_id = js ''welcome'', content = welcomeContent, role = Assistant,
      timestamp = now, intermediateSteps = None\<rparr>"

text \<open>\<open>rnd\<close> is \<open>Math.random().toString(36).substring(2)\<close>, \<open>now\<close> is \<open>Date.now()\<close>.\<close>

definition generateSessionId :: "jsstring \<Rightarrow> nat \<Rightarrow> page_state \<Rightarrow> page_state" where
  "generateSessionId rnd now s = s\<lparr>sessionId := Some (rnd @ toStringRadix 36 now)\<rparr>"

text \<open>The effect with the empty dependency list, run once when the page is mounted.\<close>

definition mount :: "jsstring \<Rightarrow> nat \<Rightarrow> page_state \<Rightarrow> page_state" where
  "mount rnd now s = generateSessionId rnd now (s\<lparr>messages := [welcomeMessage now]\<rparr>)"

subsection \<open>\<open>sendMessage\<close>\<close>

definition userMessage :: "jsstring \<Rightarrow> nat \<Rightarrow> Message" where
  "userMessage text now =
     \<lparr>msg_id = toStringRadix 10 now, content = text, role = User,
      timestamp = now, intermediateSteps = None\<rparr>"

definition assistantMessage :: "ResponseData \<Rightarrow> nat \<Rightarrow> Message" where
  "assistantMessage d now =
     \<lparr>msg_id = toStringRadix 10 now @ js ''_ai'', content = response d, role = Assistant,
      timestamp = now, intermediateSteps = intermediate_steps d\<rparr>"

definition errorMessage :: "nat \<Rightarrow> Message" where
  "errorMessage now =
     \<lparr>msg_id = toStringRadix 10 now @ js ''_error'',
      content = js ''Sorry, I encountered an error. Please try again.'', role = Assistant,
      timestamp = now, intermediateSteps = None\<rparr>"

text \<open>
  \<open>sendMessage\<close> up to its \<open>await\<close>: the guard, the three state updates, and the request
  that leaves (none when the guard returns). \<open>now\<close> is the clock reading of that moment.
\<close>

definition sendMessage_begin :: "nat \<Rightarrow> page_state \<Rightarrow> page_state \<times> QueryRequest option" where
  "sendMessage_begin now s =
     (if trim (inputMessage s) = [] \<or> isLoading s then (s, None)
      else (s\<lparr>messages := messages s @ [userMessage (inputMessage s) now],
              inputMessage := [], isLoading := True\<rparr>,
            Some (QueryRequest (inputMessage s) (sessionId s))))"

text \<open>
  \<open>sendMessage\<close> after its \<open>await\<close>: \<open>sent\<close> is the \<open>sessionId\<close> of the render that
  started the call (the value that was sent), \<open>r\<close> the outcome of the round trip, \<open>s\<close> the
  state the functional updates find. The \<open>else\<close> branch throws into the same \<open>catch\<close>
  as a failed round trip, and so does reading \<open>data.success\<close> of a \<open>null\<close> body;
  \<open>finally\<close> clears the flag on every path.
\<close>

definition sendMessage_finish ::
    "jsstring option \<Rightarrow> fetch_result \<Rightarrow> nat \<Rightarrow> page_state \<Rightarrow> page_state" where
  "sendMessage_finish sent r now s =
     (case r of
        Resolved d \<Rightarrow>
          if success d then
            s\<lparr>messages := messages s @ [assistantMessage d now],
              sessionId := (if truthy (session_id d) \<and> session_id d \<noteq> sent
                            then session_id d else sessionId s),
              isLoading := False\<rparr>
          else s\<lparr>messages := messages s @ [errorMessage now], isLoading := False\<rparr>
      | ResolvedNull \<Rightarrow> s\<lparr>messages := messages s @ [errorMessage now], isLoading := False\<rparr>
      | Rejected \<Rightarrow> s\<lparr>messages := messages s @ [errorMessage now], isLoading := False\<rparr>)"

text \<open>A whole call with nothing else happening in between.\<close>

definition sendMessage :: "nat \<Rightarrow> fetch_result \<Rightarrow> nat \<Rightarrow> page_state \<Rightarrow> page_state" where
  "sendMessage now r now' s =
     (case sendMessage_begin now s of
        (s', None) \<Rightarrow> s'
      | (s', Some q) \<Rightarrow> sendMessage_finish (query_session_id q) r now' s')"

text \<open>A round trip threw, or its body was \<open>null\<close> or came back with \<open>success\<close> false.\<close>

definition round_trip_failed :: "fetch_result \<Rightarrow> bool" where
  "round_trip_failed r =
     (case r of Rejected \<Rightarrow> True | ResolvedNull \<Rightarrow> True | Resolved d \<Rightarrow> \<not> success d)"

text \<open>The input box and the quick-action buttons: \<open>setInputMessage(v)\<close>.\<close>

definition setInputMessage :: "jsstring \<Rightarrow> page_state \<Rightarrow> page_state" where
  "setInputMessage v s = s\<lparr>inputMessage := v\<rparr>"

subsection \<open>\<open>handleFileUpload\<close>\<close>

definition uploadMessage :: "File \<Rightarrow> ResponseData \<Rightarrow> nat \<Rightarrow> Message" where
  "uploadMessage f d now =
     \<lparr>msg_id = toStringRadix 10 now @ js ''_upload'',
      content = [0xD83D, 0xDCC4] @ js '' Uploaded and processed: **''
                @ name f @ js ''**'' @ [0x0A] @ template (message d),
      role = Assistant, timestamp = now, intermediateSteps = None\<rparr>"

text \<open>
  One turn of the loop up to its \<open>await\<close>: the file is listed as uploading and the form
  leaves, with the \<open>session_id\<close> field only when the \<open>sessionId\<close> of the render that
  started the handler (\<open>sid\<close>) is set.
\<close>

definition upload_begin :: "jsstring option \<Rightarrow> File \<Rightarrow> page_state \<Rightarrow> page_state \<times> UploadRequest" where
  "upload_begin sid f s =
     (s\<lparr>files := files s @ [\<lparr>fileRef = f, status = Uploading, statusMessage = Undefined\<rparr>]\<rparr>,
      UploadRequest f (if truthy sid then sid else None))"

text \<open>
  The same turn after the \<open>await\<close>. With a \<open>null\<close> body the first \<open>setFiles\<close> updater
  reads \<open>data.success\<close> of it when it reaches the entry of this file, so it throws in the
  render that applies it, and that is the end of the page; the \<open>catch\<close>, which the next line
  of the handler enters, cannot help it.
\<close>

definition upload_finish :: "File \<Rightarrow> fetch_result \<Rightarrow> nat \<Rightarrow> page_state \<Rightarrow> page_state" where
  "upload_finish f r now s =
     (case r of
        Resolved d \<Rightarrow>
          (let s' = s\<lparr>files :=
                      map (\<lambda>u. if fileRef u = f
                                then u\<lparr>status := (if success d then Completed else Error),
                                       statusMessage := message d\<rparr>
                                else u) (files s)\<rparr>
           in if success d then s'\<lparr>messages := messages s' @ [uploadMessage f d now]\<rparr> else s')
      | ResolvedNull \<Rightarrow>
          if list_ex (\<lambda>u. fileRef u = f) (files s) then s\<lparr>crashed := True\<rparr> else s
      | Rejected \<Rightarrow>
          s\<lparr>files :=
              map (\<lambda>u. if fileRef u = f
                        then u\<lparr>status := Error, statusMessage := Text (js ''Upload failed'')\<rparr>
                        else u) (files s)\<rparr>)"

text \<open>
  The loop over the selected files of a whole call on a mounted page, each file with the
  outcome of its round trip and the clock reading when that outcome is handled: the state
  it leaves and the forms it sends, all with the \<open>sessionId\<close> of the render that started the
  handler. Once the page has crashed the loop goes on sending, and its updates are lost.
\<close>

fun upload_loop ::
    "jsstring option \<Rightarrow> (File \<times> fetch_result \<times> nat) list \<Rightarrow> page_state
       \<Rightarrow> page_state \<times> UploadRequest list" where
  "upload_loop sid [] s = (s, [])"
| "upload_loop sid ((f, r, now) # rest) s =
     (let s1 = upload_finish f r now (fst (upload_begin sid f s));
          later = upload_loop sid rest s1
      in (if crashed s1 then s1 else fst later, snd (upload_begin sid f s) # snd later))"

definition handleFileUpload :: "(File \<times> fetch_result \<times> nat) list \<Rightarrow> page_state \<Rightarrow> page_state" where
  "handleFileUpload selectedFiles s = fst (upload_loop (sessionId s) selectedFiles s)"

definition handleFileUpload_sent ::
    "(File \<times> fetch_result \<times> nat) list \<Rightarrow> page_state \<Rightarrow> UploadRequest list" where
  "handleFileUpload_sent selectedFiles s = snd (upload_loop (sessionId s) selectedFiles s)"

text \<open>How the loop goes on after a turn, when other handlers run during its \<open>await\<close>s:
  \<open>rest\<close> are the files still to be sent.\<close>

definition upload_next ::
    "jsstring option \<Rightarrow> File list \<Rightarrow> page_state \<Rightarrow> page_state \<times> UploadRequest option" where
  "upload_next sid rest s =
     (case rest of
        [] \<Rightarrow> (s, None)
      | g # rest' \<Rightarrow>
          (if crashed s then s else fst (upload_begin sid g s), Some (snd (upload_begin sid g s))))"

subsection \<open>\<open>clearMemory\<close>\<close>

text \<open>Up to the \<open>await\<close>: the guard on the session identifier, and the request.\<close>

definition clearMemory_begin :: "MemoryType \<Rightarrow> page_state \<Rightarrow> ClearRequest option" where
  "clearMemory_begin ty s =
     (if \<not> truthy (sessionId s) then None else Some (ClearRequest (sessionId s) ty))"

text \<open>After the \<open>await\<close>; the \<open>alert\<close> and the console line are not page state.\<close>

definition clearMemory_finish :: "MemoryType \<Rightarrow> fetch_result \<Rightarrow> page_state \<Rightarrow> page_state" where
  "clearMemory_finish ty r s =
     (case r of
        Resolved d \<Rightarrow>
          if success d then (if ty = Conversation then s\<lparr>messages := []\<rparr> else s) else s
      | ResolvedNull \<Rightarrow> s
      | Rejected \<Rightarrow> s)"

definition clearMemory :: "MemoryType \<Rightarrow> fetch_result \<Rightarrow> page_state \<Rightarrow> page_state" where
  "clearMemory ty r s =
     (case clearMemory_begin ty s of None \<Rightarrow> s | Some q \<Rightarrow> clearMemory_finish ty r s)"

subsection \<open>The page as a transition system\<close>

text \<open>
  Every \<open>await\<close> gives other handlers room to run. The page together with the calls that
  are under way, from the mounted page on: each handler is cut at its \<open>await\<close>, and the
  rest of it may run at any later moment, in any order with the others. A handler sees the
  state of the latest render, which React has brought up to date before the next event is
  dispatched; what it read before an \<open>await\<close> it keeps. A query under way is kept with
  its request, an upload with the \<open>sessionId\<close> its handler read, the file on its way and the
  files still to come. Nothing happens on a page that has crashed.
\<close>

datatype pending =
    is_query: PQuery QueryRequest
  | PUpload "jsstring option" File "File list"
  | PClear MemoryType

record chat_sys =
  page :: page_state
  inflight :: "pending list"

inductive chat_reach :: "chat_sys \<Rightarrow> bool" where
  mounted: "chat_reach \<lparr>page = mount rnd now initial_state, inflight = []\<rparr>"
| typed: "chat_reach c \<Longrightarrow> \<not> crashed (page c) \<Longrightarrow>
     chat_reach (c\<lparr>page := setInputMessage v (page c)\<rparr>)"
| toggled: "chat_reach c \<Longrightarrow> \<not> crashed (page c) \<Longrightarrow>
     chat_reach (c\<lparr>page := (page c)\<lparr>showAdvanced := \<not> showAdvanced (page c)\<rparr>\<rparr>)"
| send_refused: "chat_reach c \<Longrightarrow> \<not> crashed (page c) \<Longrightarrow>
     sendMessage_begin now (page c) = (s', None) \<Longrightarrow>
     chat_reach (c\<lparr>page := s'\<rparr>)"
| send_issued: "chat_reach c \<Longrightarrow> \<not> crashed (page c) \<Longrightarrow>
     sendMessage_begin now (page c) = (s', Some q) \<Longrightarrow>
     chat_reach \<lparr>page = s', inflight = inflight c @ [PQuery q]\<rparr>"
| query_done: "chat_reach c \<Longrightarrow> \<not> crashed (page c) \<Longrightarrow>
     PQuery q \<in> set (inflight c) \<Longrightarrow>
     chat_reach \<lparr>page = sendMessage_finish (query_session_id q) r now (page c),
                 inflight = remove1 (PQuery q) (inflight c)\<rparr>"
| upload_started: "chat_reach c \<Longrightarrow> \<not> crashed (page c) \<Longrightarrow>
     chat_reach \<lparr>page = fst (upload_begin (sessionId (page c)) f (page c)),
                 inflight = inflight c @ [PUpload (sessionId (page c)) f rest]\<rparr>"
| upload_done: "chat_reach c \<Longrightarrow> \<not> crashed (page c) \<Longrightarrow>
     PUpload sid f rest \<in> set (inflight c) \<Longrightarrow>
     chat_reach
       \<lparr>page = fst (upload_next sid rest (upload_finish f r now (page c))),
        inflight = remove1 (PUpload sid f rest) (inflight c)
                   @ (case rest of [] \<Rightarrow> [] | g # rest' \<Rightarrow> [PUpload sid g rest'])\<rparr>"
| clear_issued: "chat_reach c \<Longrightarrow> \<not> crashed (page c) \<Longrightarrow>
     clearMemory_begin ty (page c) = Some cq \<Longrightarrow>
     chat_reach (c\<lparr>inflight := inflight c @ [PClear ty]\<rparr>)"
| clear_done: "chat_reach c \<Longrightarrow> \<not> crashed (page c) \<Longrightarrow>
     PClear ty \<in> set (inflight c) \<Longrightarrow>
     chat_reach \<lparr>page = clearMemory_finish ty r (page c),
                 inflight = remove1 (PClear ty) (inflight c)\<rparr>"

text \<open>A run of accepted exchanges: the text typed, the clock at the send, the outcome of
  the round trip and the clock when it is handled.\<close>

fun sendAll :: "(jsstring \<times> nat \<times> fetch_result \<times> nat) list \<Rightarrow> page_state \<Rightarrow> page_state" where
  "sendAll [] s = s"
| "sendAll ((text, now, r, now') # rest) s =
     sendAll rest (sendMessage now r now' (setInputMessage text s))"

text \<open>What handling the outcome of a query appends.\<close>

definition replyMessage :: "fetch_result \<Rightarrow> nat \<Rightarrow> Message" where
  "replyMessage r now =
     (case r of
        Resolved d \<Rightarrow> if success d then assistantMessage d now else errorMessage now
      | ResolvedNull \<Rightarrow> errorMessage now
      | Rejected \<Rightarrow> errorMessage now)"

section \<open>The compare page: \<open>src/app/compare/page.tsx\<close>\<close>

text \<open>
  \<open>OttoScore\<close> is declared in \<open>@/utils/types\<close>; the page reads its \<open>ticker\<close> only,
  the other fields are the parameter \<open>'a\<close>.
\<close>

record 'a OttoScore =
  ticker :: jsstring
  otherFields :: 'a

record 'a compare_state =
  compareStocks :: "'a OttoScore list"
  searchTicker :: jsstring
  loading :: bool

definition compare_initial :: "'a compare_state" where
  "compare_initial = \<lparr>compareStocks = [], searchTicker = [], loading = False\<rparr>"

text \<open>
  \<open>handleAddStock\<close> up to its \<open>await\<close>: the two early returns (the second one after an
  alert), then \<open>setLoading(true)\<close> and the ticker handed to \<open>ottoAPI.getScore\<close>.
  \<open>toUpperCase\<close> is the platform's.
\<close>

definition handleAddStock_begin ::
    "(jsstring \<Rightarrow> jsstring) \<Rightarrow> 'a compare_state \<Rightarrow> 'a compare_state \<times> jsstring option" where
  "handleAddStock_begin toUpperCase s =
     (if trim (searchTicker s) = [] \<or> length (compareStocks s) \<ge> 3 then (s, None)
      else if list_ex (\<lambda>stock. ticker stock = toUpperCase (searchTicker s)) (compareStocks s)
      then (s, None)
      else (s\<lparr>loading := True\<rparr>, Some (searchTicker s)))"

text \<open>
  After the \<open>await\<close>: \<open>shown\<close> is the \<open>compareStocks\<close> of the render that started the
  call (the update is not a functional one), \<open>outcome\<close> is the stock \<open>getScore\<close> resolved
  to, or \<open>None\<close> when it rejected.
\<close>

definition handleAddStock_finish ::
    "'a OttoScore list \<Rightarrow> 'a OttoScore option \<Rightarrow> 'a compare_state \<Rightarrow> 'a compare_state" where
  "handleAddStock_finish shown outcome s =
     (case outcome of
        Some stock \<Rightarrow> s\<lparr>compareStocks := shown @ [stock], searchTicker := [], loading := False\<rparr>
      | None \<Rightarrow> s\<lparr>loading := False\<rparr>)"

text \<open>A whole call with nothing else happening in between; \<open>getScore\<close> gives the outcome
  for the ticker asked.\<close>

definition handleAddStock ::
    "(jsstring \<Rightarrow> jsstring) \<Rightarrow> (jsstring \<Rightarrow> 'a OttoScore option) \<Rightarrow> 'a compare_state
       \<Rightarrow> 'a compare_state" where
  "handleAddStock toUpperCase getScore s =
     (case handleAddStock_begin toUpperCase s of
        (s', None) \<Rightarrow> s'
      | (s', Some t) \<Rightarrow> handleAddStock_finish (compareStocks s) (getScore t) s')"

definition removeStock :: "jsstring \<Rightarrow> 'a compare_state \<Rightarrow> 'a compare_state" where
  "removeStock tk s =
     s\<lparr>compareStocks := filter (\<lambda>stock. ticker stock \<noteq> tk) (compareStocks s)\<rparr>"

text \<open>
  \<open>addQuickCompare\<close>, cut at its \<open>await\<close>; \<open>outcome\<close> is what \<open>ottoAPI.compareStocks\<close>
  resolved to for the three tickers, or \<open>None\<close> when it rejected. The answer is stored as
  it comes.
\<close>

definition addQuickCompare_begin :: "'a compare_state \<Rightarrow> 'a compare_state" where
  "addQuickCompare_begin s = s\<lparr>loading := True\<rparr>"

definition addQuickCompare_finish ::
    "'a OttoScore list option \<Rightarrow> 'a compare_state \<Rightarrow> 'a compare_state" where
  "addQuickCompare_finish outcome s =
     (case outcome of
        Some stocks \<Rightarrow> s\<lparr>compareStocks := stocks, loading := False\<rparr>
      | None \<Rightarrow> s\<lparr>loading := False\<rparr>)"

definition addQuickCompare :: "'a OttoScore list option \<Rightarrow> 'a compare_state \<Rightarrow> 'a compare_state" where
  "addQuickCompare outcome s = addQuickCompare_finish outcome (addQuickCompare_begin s)"

text \<open>
  The page with the calls that are waiting: each \<open>handleAddStock\<close> with the list its render
  showed and the ticker it asked for, and the number of \<open>addQuickCompare\<close> calls under way.
  The second half of a call may run at any later moment, in any order with the others.
  \<open>ottoAPI\<close> (\<open>@/utils/api\<close>) is not among the sources, so its two methods are parameters:
  \<open>getScore t outcome\<close> says that \<open>getScore(t)\<close> may settle with \<open>outcome\<close>, and
  \<open>compareStocks outcome\<close> that the call of \<open>addQuickCompare\<close> may.
\<close>

record 'a compare_sys =
  shownPage :: "'a compare_state"
  waiting :: "('a OttoScore list \<times> jsstring) list"
  quickAsked :: nat

inductive compare_reach ::
    "(jsstring \<Rightarrow> jsstring) \<Rightarrow> (jsstring \<Rightarrow> 'a OttoScore option \<Rightarrow> bool)
       \<Rightarrow> ('a OttoScore list option \<Rightarrow> bool) \<Rightarrow> 'a compare_sys \<Rightarrow> bool"
  for toUpperCase getScore compareStocksApi where
  opened: "compare_reach toUpperCase getScore compareStocksApi
     \<lparr>shownPage = compare_initial, waiting = [], quickAsked = 0\<rparr>"
| ticker_typed: "compare_reach toUpperCase getScore compareStocksApi c \<Longrightarrow>
     compare_reach toUpperCase getScore compareStocksApi
       (c\<lparr>shownPage := (shownPage c)\<lparr>searchTicker := v\<rparr>\<rparr>)"
| add_refused: "compare_reach toUpperCase getScore compareStocksApi c \<Longrightarrow>
     handleAddStock_begin toUpperCase (shownPage c) = (s', None) \<Longrightarrow>
     compare_reach toUpperCase getScore compareStocksApi (c\<lparr>shownPage := s'\<rparr>)"
| add_asked: "compare_reach toUpperCase getScore compareStocksApi c \<Longrightarrow>
     handleAddStock_begin toUpperCase (shownPage c) = (s', Some t) \<Longrightarrow>
     compare_reach toUpperCase getScore compareStocksApi
       (c\<lparr>shownPage := s', waiting := waiting c @ [(compareStocks (shownPage c), t)]\<rparr>)"
| add_answered: "compare_reach toUpperCase getScore compareStocksApi c \<Longrightarrow>
     (shown, t) \<in> set (waiting c) \<Longrightarrow> getScore t outcome \<Longrightarrow>
     compare_reach toUpperCase getScore compareStocksApi
       (c\<lparr>shownPage := handleAddStock_finish shown outcome (shownPage c),
          waiting := remove1 (shown, t) (waiting c)\<rparr>)"
| removed: "compare_reach toUpperCase getScore compareStocksApi c \<Longrightarrow>
     compare_reach toUpperCase getScore compareStocksApi
       (c\<lparr>shownPage := removeStock tk (shownPage c)\<rparr>)"
| quick_asked: "compare_reach toUpperCase getScore compareStocksApi c \<Longrightarrow>
     compare_reach toUpperCase getScore compareStocksApi
       (c\<lparr>shownPage := addQuickCompare_begin (shownPage c), quickAsked := Suc (quickAsked c)\<rparr>)"
| quick_answered: "compare_reach toUpperCase getScore compareStocksApi c \<Longrightarrow>
     0 < quickAsked c \<Longrightarrow> compareStocksApi outcome \<Longrightarrow>
     compare_reach toUpperCase getScore compareStocksApi
       (c\<lparr>shownPage := addQuickCompare_finish outcome (shownPage c),
          quickAsked := quickAsked c - 1\<rparr>)"

text \<open>
  The assumption of the claim on \<open>ottoAPI.getScore(t)\<close>: when it resolves, the stock's
  ticker is \<open>t\<close> in upper case. Next to it, \<open>ottoAPI.compareStocks\<close> with nothing assumed
  of its answer, and with the assumption that it resolves to at most three stocks, no
  ticker twice.
\<close>

definition getScore_answers ::
    "(jsstring \<Rightarrow> jsstring) \<Rightarrow> jsstring \<Rightarrow> 'a OttoScore option \<Rightarrow> bool" where
  "getScore_answers toUpperCase t outcome =
     (case outcome of None \<Rightarrow> True | Some stock \<Rightarrow> ticker stock = toUpperCase t)"

definition compareStocks_unchecked :: "'a OttoScore list option \<Rightarrow> bool" where
  "compareStocks_unchecked outcome = True"

definition compareStocks_answers :: "'a OttoScore list option \<Rightarrow> bool" where
  "compareStocks_answers outcome =
     (case outcome of
        None \<Rightarrow> True
      | Some stocks \<Rightarrow> length stocks \<le> 3 \<and> distinct (map ticker stocks))"

section \<open>The calendar page: \<open>src/unnamed/part_001\<close>\<close>

text \<open>
  \<open>CalendarStock\<close> is declared in \<open>@/utils/types\<close>; the handlers read its \<open>ticker\<close>
  (here \<open>calTicker\<close>) and \<open>companyName\<close>, the other fields are the parameter \<open>'a\<close>.
  The state cell \<open>searchTicker\<close> of this page is \<open>calSearchTicker\<close>.
\<close>

record 'a CalendarStock =
  calTicker :: jsstring
  companyName :: jsstring
  calOther :: 'a

record 'a calendar_state =
  selectedStocks :: "'a CalendarStock list"
  calSearchTicker :: jsstring
  searchResults :: "'a CalendarStock list"

text \<open>\<open>String.prototype.includes\<close>: \<open>str_includes s t\<close> is \<open>s.includes(t)\<close>.\<close>

fun str_includes :: "jsstring \<Rightarrow> jsstring \<Rightarrow> bool" where
  "str_includes [] t = (t = [])"
| "str_includes (c # cs) t = (prefix t (c # cs) \<or> str_includes cs t)"

text \<open>\<open>handleSearch\<close>; \<open>calendarStocks\<close> is the table imported from \<open>@/utils/mockData\<close>,
  \<open>toLowerCase\<close> is the platform's.\<close>

definition handleSearch ::
    "(jsstring \<Rightarrow> jsstring) \<Rightarrow> 'a CalendarStock list \<Rightarrow> 'a calendar_state \<Rightarrow> 'a calendar_state" where
  "handleSearch toLowerCase calendarStocks s =
     (if trim (calSearchTicker s) \<noteq> [] then
        s\<lparr>searchResults :=
            filter (\<lambda>stock.
                str_includes (toLowerCase (calTicker stock)) (toLowerCase (calSearchTicker s))
              \<or> str_includes (toLowerCase (companyName stock)) (toLowerCase (calSearchTicker s)))
              calendarStocks\<rparr>
      else s\<lparr>searchResults := []\<rparr>)"

text \<open>
  The claim's words. A string is blank when it holds nothing but white space. \<open>hay\<close>
  contains \<open>q\<close> case-insensitively when \<open>q\<close> in lower case occurs as a stretch of \<open>hay\<close>
  in lower case.
\<close>

definition blank :: "jsstring \<Rightarrow> bool" where
  "blank q = list_all (\<lambda>c. c \<in> set whitespace) q"

definition contains_ignoring_case :: "(jsstring \<Rightarrow> jsstring) \<Rightarrow> jsstring \<Rightarrow> jsstring \<Rightarrow> bool" where
  "contains_ignoring_case toLowerCase hay q =
     (\<exists>before after. toLowerCase hay = before @ toLowerCase q @ after)"

section \<open>The restricted execution sandbox\<close>

text \<open>
  The sandbox belongs to the Flask backend (\<open>backend/tools/python_repl_tool.py\<close>), which is
  not among the sources: the pages above only reach it through \<open>POST /query\<close>. What
  follows is written from the specification.
\<close>

datatype Verdict = Allowed string | Denied string | Faulted string | Exhausted

text \<open>The submission after parsing: the nodes of its syntax tree in source order, as far
  as the admission check looks at them.\<close>

datatype syntax_node = Import string | Identifier string | OtherNode

record sandbox_policy =
  deny_list :: "string list"
  allow_list :: "string list"

text \<open>
  Modelled from the spec: the static admission check of the sandbox, which is missing from
  the sources. A node is refused when it references an identifier on the deny-list or
  performs an import outside the allow-list; an import statement names its module, so the
  module of an import is one of the identifiers the deny-list is asked about.
\<close>

fun forbidden :: "sandbox_policy \<Rightarrow> syntax_node \<Rightarrow> bool" where
  "forbidden p (Import m) = (m \<in> set (deny_list p) \<or> m \<notin> set (allow_list p))"
| "forbidden p (Identifier x) = (x \<in> set (deny_list p))"
| "forbidden p OtherNode = False"

fun denial_reason :: "syntax_node \<Rightarrow> string" where
  "denial_reason (Import m) = ''import of '' @ m @ '' is not allowed''"
| "denial_reason (Identifier x) = ''use of '' @ x @ '' is not allowed''"
| "denial_reason OtherNode = []"

text \<open>
  Modelled from the spec: phase 1 of the sandbox (missing from the sources), a pure function
  of the submission that gives the reason of the denial, or \<open>None\<close> when it admits.
\<close>

definition static_admission_check :: "sandbox_policy \<Rightarrow> syntax_node list \<Rightarrow> string option" where
  "static_admission_check p code = map_option denial_reason (find (forbidden p) code)"

text \<open>The resources of the host: the counter of execution contexts allocated so far and
  the submissions that were run.\<close>

record sandbox_state =
  allocated :: nat
  executed :: "syntax_node list list"

datatype execution = Ran string | Raised string | Killed

text \<open>
  Modelled from the spec: a whole execution request of the sandbox (missing from the
  sources). Phase 1 runs before any execution resource is allocated; only an admitted
  submission gets an execution context and is run in it (\<open>isolated\<close> stands for phase 2),
  and its outcome is one of the three other verdicts.
\<close>

definition submit ::
    "sandbox_policy \<Rightarrow> (syntax_node list \<Rightarrow> execution) \<Rightarrow> syntax_node list \<Rightarrow> sandbox_state
       \<Rightarrow> Verdict \<times> sandbox_state" where
  "submit p isolated code st =
     (case static_admission_check p code of
        Some reason \<Rightarrow> (Denied reason, st)
      | None \<Rightarrow>
          ((case isolated code of
              Ran out \<Rightarrow> Allowed out
            | Raised msg \<Rightarrow> Faulted msg
            | Killed \<Rightarrow> Exhausted),
           st\<lparr>allocated := allocated st + 1, executed := executed st @ [code]\<rparr>))"

section \<open>Facts about the chat page\<close>

lemma toStringRadix_nonempty: "toStringRadix b n \<noteq> []"
  by (subst toStringRadix.simps) simp

lemma trim_hi: "trim (js ''hi'') \<noteq> []"
  by (simp add: trim_def whitespace_def js_def)

lemma messages_sendMessage_finish:
  "messages (sendMessage_finish sent r now s) = messages s @ [replyMessage r now]"
  by (cases r) (simp_all add: sendMessage_finish_def replyMessage_def)

lemma isLoading_sendMessage_finish: "\<not> isLoading (sendMessage_finish sent r now s)"
  by (cases r) (simp_all add: sendMessage_finish_def)

lemma crashed_sendMessage_finish:
  "crashed (sendMessage_finish sent r now s) = crashed s"
  by (cases r) (simp_all add: sendMessage_finish_def)

lemma sendMessage_accepted:
  assumes "trim (inputMessage s) \<noteq> []" "\<not> isLoading s"
  shows "messages (sendMessage now r now' s)
           = messages s @ [userMessage (inputMessage s) now, replyMessage r now']"
    and "\<not> isLoading (sendMessage now r now' s)"
  using assms
  by (simp_all add: sendMessage_def sendMessage_begin_def messages_sendMessage_finish
      isLoading_sendMessage_finish)

text \<open>The turns that a run of exchanges adds, in the order of the requests.\<close>

lemma sendAll_appends:
  assumes "\<forall>x \<in> set xs. trim (fst x) \<noteq> []" "\<not> isLoading s"
  shows "messages (sendAll xs s) =
           messages s @ concat (map (\<lambda>(v, now, r, now'). [userMessage v now, replyMessage r now']) xs)
         \<and> \<not> isLoading (sendAll xs s)"
  using assms
proof (induction xs arbitrary: s)
  case Nil
  then show ?case by simp
next
  case (Cons x xs)
  obtain v now r now' where x: "x = (v, now, r, now')" by (cases x) auto
  let ?s1 = "setInputMessage v s"
  let ?s2 = "sendMessage now r now' ?s1"
  from Cons.prems x have a: "trim (inputMessage ?s1) \<noteq> []" "\<not> isLoading ?s1"
    by (simp_all add: setInputMessage_def)
  from sendMessage_accepted[OF a, of now r now'] have
    m: "messages ?s2 = messages s @ [userMessage v now, replyMessage r now']"
    and l: "\<not> isLoading ?s2"
    by (simp_all add: setInputMessage_def)
  from Cons.prems have "\<forall>x \<in> set xs. trim (fst x) \<noteq> []" by simp
  from Cons.IH[OF this l] m x show ?case by simp
qed

lemma length_concat_pairs:
  "length (concat (map (\<lambda>(v, now, r, now'). [f v now, g r now']) xs)) = 2 * length xs"
  by (induction xs) auto

lemma sendAll_grows:
  assumes "\<forall>x \<in> set xs. trim (fst x) \<noteq> []" "\<not> isLoading s"
  shows "length (messages (sendAll xs s)) = length (messages s) + 2 * length xs"
    and "prefix (messages s) (messages (sendAll xs s))"
  using sendAll_appends[OF assms] by (simp_all add: length_concat_pairs)

lemma mounted_page:
  "messages (mount rnd now initial_state) = [welcomeMessage now]"
  "\<not> isLoading (mount rnd now initial_state)"
  "sessionId (mount rnd now initial_state) = Some (rnd @ toStringRadix 36 now)"
  "inputMessage (mount rnd now initial_state) = []"
  "files (mount rnd now initial_state) = []"
  "\<not> crashed (mount rnd now initial_state)"
  by (simp_all add: mount_def generateSessionId_def initial_state_def)

lemma filter_remove1_member:
  "x \<in> set xs \<Longrightarrow> P x \<Longrightarrow> length (filter P (remove1 x xs)) = length (filter P xs) - 1"
proof (induction xs)
  case Nil
  then show ?case by simp
next
  case (Cons a xs)
  show ?case
  proof (cases "x = a")
    case True
    with Cons.prems show ?thesis by simp
  next
    case False
    with Cons.prems have "x \<in> set xs" by simp
    with Cons.prems have "filter P xs \<noteq> []" by (auto simp: filter_empty_conv)
    then have "0 < length (filter P xs)" by simp
    with Cons.IH[OF \<open>x \<in> set xs\<close> Cons.prems(2)] False show ?thesis by simp
  qed
qed

lemma filter_remove1_other: "\<not> P x \<Longrightarrow> filter P (remove1 x xs) = filter P xs"
  by (induction xs) auto

lemma no_query_among_uploads:
  "filter is_query (case rest of [] \<Rightarrow> [] | g # rest' \<Rightarrow> [PUpload sid g rest']) = []"
  by (cases rest) simp_all

lemma isLoading_upload_finish: "isLoading (upload_finish f r now s) = isLoading s"
  by (cases r) (auto simp: upload_finish_def Let_def)

lemma isLoading_upload_next: "isLoading (fst (upload_next sid rest s)) = isLoading s"
  by (cases rest) (simp_all add: upload_next_def upload_begin_def)

lemma isLoading_clearMemory_finish: "isLoading (clearMemory_finish ty r s) = isLoading s"
  by (cases r) (auto simp: clearMemory_finish_def)

text \<open>The loading flag counts the queries under way.\<close>

lemma queries_in_flight:
  "chat_reach c \<Longrightarrow>
     length (filter is_query (inflight c)) = (if isLoading (page c) then 1 else 0)"
proof (induction rule: chat_reach.induct)
  case (mounted rnd now)
  then show ?case by (simp add: mounted_page)
next
  case (typed c v)
  then show ?case by (simp add: setInputMessage_def)
next
  case (toggled c)
  then show ?case by simp
next
  case (send_refused c now s')
  then show ?case by (auto simp: sendMessage_begin_def split: if_splits)
next
  case (send_issued c now s' q)
  then show ?case by (auto simp: sendMessage_begin_def split: if_splits)
next
  case (query_done c q r now)
  then have "length (filter is_query (inflight c)) = 1"
    by (auto simp: filter_empty_conv split: if_splits)
  with query_done show ?case
    by (simp add: filter_remove1_member isLoading_sendMessage_finish)
next
  case (upload_started c f rest)
  then show ?case by (simp add: upload_begin_def)
next
  case (upload_done c sid f rest r now)
  then show ?case
    by (simp add: filter_remove1_other isLoading_upload_finish isLoading_upload_next
        no_query_among_uploads)
next
  case (clear_issued c ty cq)
  then show ?case by simp
next
  case (clear_done c ty r)
  then show ?case by (simp add: filter_remove1_other isLoading_clearMemory_finish)
qed


lemma prefix_sendMessage_begin: "prefix (messages s) (messages (fst (sendMessage_begin now s)))"
  by (simp add: sendMessage_begin_def)

lemma prefix_sendMessage: "prefix (messages s) (messages (sendMessage now r now' s))"
  by (simp add: sendMessage_def sendMessage_begin_def messages_sendMessage_finish)

lemma messages_upload_begin: "messages (fst (upload_begin sid f s)) = messages s"
  by (simp add: upload_begin_def)

lemma prefix_upload_finish: "prefix (messages s) (messages (upload_finish f r now s))"
  by (cases r) (simp_all add: upload_finish_def Let_def)

lemma prefix_upload_loop: "prefix (messages s) (messages (fst (upload_loop sid sel s)))"
proof (induction sid sel s rule: upload_loop.induct)
  case (1 sid s)
  then show ?case by simp
next
  case (2 sid f r now rest s)
  let ?s1 = "upload_finish f r now (fst (upload_begin sid f s))"
  have a: "prefix (messages s) (messages ?s1)"
    using prefix_upload_finish[of "fst (upload_begin sid f s)" f r now]
    by (simp add: messages_upload_begin)
  have "prefix (messages ?s1) (messages (fst (upload_loop sid rest ?s1)))"
    by (rule 2) (rule refl)
  with a have "prefix (messages s) (messages (fst (upload_loop sid rest ?s1)))"
    by (rule prefix_order.trans)
  with a show ?case by (simp add: Let_def)
qed

text \<open>Every form of the loop carries the identifier the handler read when it started.\<close>

lemma upload_loop_sent:
  "snd (upload_loop sid sel s) =
     map (\<lambda>x. UploadRequest (fst x) (if truthy sid then sid else None)) sel"
  by (induction sid sel s rule: upload_loop.induct) (simp_all add: Let_def upload_begin_def)

lemma sessionId_upload_finish: "sessionId (upload_finish f r now s) = sessionId s"
  by (cases r) (simp_all add: upload_finish_def Let_def)

lemma sessionId_upload_next: "sessionId (fst (upload_next sid rest s)) = sessionId s"
  by (cases rest) (simp_all add: upload_next_def upload_begin_def)

lemma sessionId_clearMemory_finish: "sessionId (clearMemory_finish ty r s) = sessionId s"
  by (cases r) (simp_all add: clearMemory_finish_def)

lemma sessionId_sendMessage_finish:
  "sessionId (sendMessage_finish sent r now s) =
     (case r of
        Rejected \<Rightarrow> sessionId s
      | ResolvedNull \<Rightarrow> sessionId s
      | Resolved d \<Rightarrow>
          if success d \<and> truthy (session_id d) \<and> session_id d \<noteq> sent
          then session_id d else sessionId s)"
  by (cases r) (simp_all add: sendMessage_finish_def)

lemma no_query_in_uploads:
  "PQuery q \<notin> set (case rest of [] \<Rightarrow> [] | g # rest' \<Rightarrow> [PUpload sid g rest'])"
  by (cases rest) simp_all

text \<open>
  Once mounted the page always holds a non-empty session identifier, and a query under way
  was sent with the identifier the page still holds.
\<close>

lemma session_invariant:
  "chat_reach c \<Longrightarrow>
     truthy (sessionId (page c)) \<and>
     (\<forall>q. PQuery q \<in> set (inflight c) \<longrightarrow> query_session_id q = sessionId (page c))"
proof (induction rule: chat_reach.induct)
  case (mounted rnd now)
  then show ?case by (simp add: mounted_page truthy_def toStringRadix_nonempty)
next
  case (typed c v)
  then show ?case by (simp add: setInputMessage_def)
next
  case (toggled c)
  then show ?case by simp
next
  case (send_refused c now s')
  then show ?case by (auto simp: sendMessage_begin_def split: if_splits)
next
  case (send_issued c now s' q)
  then show ?case by (auto simp: sendMessage_begin_def split: if_splits)
next
  case (query_done c q r now)
  from query_done.hyps(1) have one: "length (filter is_query (inflight c)) \<le> 1"
    by (simp add: queries_in_flight)
  have none: "\<And>q'. PQuery q' \<notin> set (remove1 (PQuery q) (inflight c))"
  proof
    fix q' assume "PQuery q' \<in> set (remove1 (PQuery q) (inflight c))"
    moreover have "is_query (PQuery q')" by simp
    ultimately have "filter is_query (remove1 (PQuery q) (inflight c)) \<noteq> []"
      unfolding filter_empty_conv by blast
    moreover have "length (filter is_query (remove1 (PQuery q) (inflight c)))
                     = length (filter is_query (inflight c)) - 1"
      using query_done.hyps(3) by (simp add: filter_remove1_member)
    ultimately show False using one by simp
  qed
  from query_done.IH have "truthy (sessionId (page c))" by simp
  then have "truthy (sessionId (sendMessage_finish (query_session_id q) r now (page c)))"
    by (cases r) (simp_all add: sessionId_sendMessage_finish)
  with none show ?case by simp
next
  case (upload_started c f rest)
  then show ?case by (simp add: upload_begin_def)
next
  case (upload_done c sid f rest r now)
  then show ?case
    by (auto simp: sessionId_upload_finish sessionId_upload_next no_query_in_uploads
        dest: set_remove1_subset[THEN subsetD])
next
  case (clear_issued c ty cq)
  then show ?case by simp
next
  case (clear_done c ty r)
  then show ?case
    by (auto simp: sessionId_clearMemory_finish dest: set_remove1_subset[THEN subsetD])
qed

section \<open>Failed queries\<close>

text \<open>
  C4: when the round trip of a query throws, or its body reports \<open>success = false\<close>,
  handling the outcome appends exactly one turn to the transcript, an assistant turn whose
  content is the fixed sentence, whatever the \<open>error\<close> field of the body says, and the
  loading flag is false afterwards.
\<close>

theorem sendMessage_failure_fixed_message:
  assumes "round_trip_failed r"
  shows "messages (sendMessage_finish sent r now s) = messages s @ [errorMessage now]
         \<and> role (errorMessage now) = Assistant
         \<and> content (errorMessage now) = js ''Sorry, I encountered an error. Please try again.''
         \<and> \<not> isLoading (sendMessage_finish sent r now s)"
proof (cases r)
  case Rejected
  then show ?thesis by (simp add: sendMessage_finish_def errorMessage_def)
next
  case ResolvedNull
  then show ?thesis by (simp add: sendMessage_finish_def errorMessage_def)
next
  case (Resolved d)
  with assms have "\<not> success d" by (simp add: round_trip_failed_def)
  with Resolved show ?thesis by (simp add: sendMessage_finish_def errorMessage_def)
qed

theorem sendMessage_failure_fixed_message_witness:
  "map content (messages (sendMessage_finish (Some (js ''s1''))
      (Resolved \<lparr>success = False, response = [], session_id = None,
         intermediate_steps = None, error = Some (js ''Traceback: KeyError''),
         message = Undefined\<rparr>) 7 (initial_state\<lparr>isLoading := True\<rparr>)))
   = [js ''Sorry, I encountered an error. Please try again.'']"
proof -
  have h: "round_trip_failed (Resolved \<lparr>success = False, response = [], session_id = None,
         intermediate_steps = None, error = Some (js ''Traceback: KeyError''),
         message = Undefined\<rparr>)"
    by (simp add: round_trip_failed_def)
  show ?thesis
    using sendMessage_failure_fixed_message [OF h, of "Some (js ''s1'')" 7
        "initial_state\<lparr>isLoading := True\<rparr>"]
    by (simp add: initial_state_def)
qed

section \<open>The transcript has no cap\<close>

text \<open>
  C2, as the claim states it, fails: the page has no cap and evicts nothing. With the cap of
  20 turns of the specification's scenario, ten exchanges after mounting leave 21 turns in
  the transcript, the welcome turn still at its head.
\<close>

theorem transcript_cap_counterexample:
  "\<not> length (messages (sendAll (replicate 10 (js ''hi'', 1, Rejected, 2))
                          (mount (js ''k3'') 0 initial_state))) \<le> 20
   \<and> hd (messages (sendAll (replicate 10 (js ''hi'', 1, Rejected, 2))
                          (mount (js ''k3'') 0 initial_state))) = welcomeMessage 0"
proof -
  let ?xs = "replicate 10 (js ''hi'', 1::nat, Rejected, 2::nat)"
  have a: "\<forall>x \<in> set ?xs. trim (fst x) \<noteq> []"
    using trim_hi by simp
  have b: "\<not> isLoading (mount (js ''k3'') 0 initial_state)"
    by (simp add: mounted_page)
  from sendAll_appends[OF a b] sendAll_grows(1)[OF a b] show ?thesis
    by (simp add: mounted_page)
qed

text \<open>
  C2, amended: the transcript of the chat page is uncapped and nothing is ever evicted. For
  every run of accepted exchanges (non-blank input, each one handled before the next is
  sent) the transcript grows by exactly two turns per exchange, and the turns it held
  before stay in front, in order.
\<close>

theorem transcript_grows_without_eviction:
  assumes "\<forall>x \<in> set xs. trim (fst x) \<noteq> []" and "\<not> isLoading s"
  shows "length (messages (sendAll xs s)) = length (messages s) + 2 * length xs
         \<and> prefix (messages s) (messages (sendAll xs s))"
  using sendAll_grows[OF assms] by simp

theorem transcript_grows_without_eviction_witness:
  "length (messages (sendAll [(js ''hi'', 1, Rejected, 2), (js ''hi'', 3, Rejected, 4)]
                      (mount (js ''k3'') 0 initial_state))) = 5"
proof -
  have a: "\<forall>x \<in> set [(js ''hi'', 1::nat, Rejected, 2::nat), (js ''hi'', 3, Rejected, 4)].
             trim (fst x) \<noteq> []"
    using trim_hi by simp
  have b: "\<not> isLoading (mount (js ''k3'') 0 initial_state)"
    by (simp add: mounted_page)
  from transcript_grows_without_eviction[OF a b] show ?thesis
    by (simp add: mounted_page)
qed

section \<open>One query at a time\<close>


lemma query_under_way:
  "chat_reach
     \<lparr>page = fst (sendMessage_begin 1 (setInputMessage (js ''hi'') (mount (js ''k3'') 0 initial_state))),
      inflight = [PQuery (QueryRequest (js ''hi'') (Some (js ''k3'' @ toStringRadix 36 0)))]\<rparr>"
  "isLoading (fst (sendMessage_begin 1 (setInputMessage (js ''hi'') (mount (js ''k3'') 0 initial_state))))"
  "\<not> crashed (fst (sendMessage_begin 1 (setInputMessage (js ''hi'') (mount (js ''k3'') 0 initial_state))))"
proof -
  let ?c0 = "\<lparr>page = mount (js ''k3'') 0 initial_state, inflight = []\<rparr>"
  let ?s1 = "setInputMessage (js ''hi'') (mount (js ''k3'') 0 initial_state)"
  let ?q = "QueryRequest (js ''hi'') (Some (js ''k3'' @ toStringRadix 36 0))"
  have "chat_reach ?c0" by (rule chat_reach.mounted)
  then have "chat_reach (?c0\<lparr>page := setInputMessage (js ''hi'') (page ?c0)\<rparr>)"
    by (rule chat_reach.typed) (simp add: mounted_page)
  then have r1: "chat_reach \<lparr>page = ?s1, inflight = []\<rparr>" by simp
  have b: "sendMessage_begin 1 ?s1 = (fst (sendMessage_begin 1 ?s1), Some ?q)"
    using trim_hi by (simp add: sendMessage_begin_def setInputMessage_def mounted_page)
  have "chat_reach \<lparr>page = fst (sendMessage_begin 1 ?s1),
                    inflight = inflight \<lparr>page = ?s1, inflight = []\<rparr> @ [PQuery ?q]\<rparr>"
    using r1 b
    by (intro chat_reach.send_issued[where now = 1])
       (simp_all add: setInputMessage_def mounted_page)
  then show "chat_reach \<lparr>page = fst (sendMessage_begin 1 ?s1), inflight = [PQuery ?q]\<rparr>"
    by simp
  show "isLoading (fst (sendMessage_begin 1 ?s1))"
    using trim_hi by (simp add: sendMessage_begin_def setInputMessage_def mounted_page)
  show "\<not> crashed (fst (sendMessage_begin 1 ?s1))"
    using trim_hi by (simp add: sendMessage_begin_def setInputMessage_def mounted_page)
qed


section \<open>The transcript is only appended to\<close>

text \<open>
  C5: every update of the transcript made by \<open>sendMessage\<close> and \<open>handleFileUpload\<close>, in
  each half of a call and in a whole call, leaves the messages held before as a prefix of
  the new list: nothing is removed, reordered or changed in place.
\<close>

theorem transcript_append_only:
  "prefix (messages s) (messages (fst (sendMessage_begin now s)))
   \<and> prefix (messages s) (messages (sendMessage_finish sent r now' s))
   \<and> prefix (messages s) (messages (sendMessage now r now' s))
   \<and> prefix (messages s) (messages (fst (upload_begin sid f s)))
   \<and> prefix (messages s) (messages (upload_finish f r now s))
   \<and> prefix (messages s) (messages (handleFileUpload selectedFiles s))"
  by (simp add: prefix_sendMessage_begin messages_sendMessage_finish prefix_sendMessage
        messages_upload_begin prefix_upload_finish prefix_upload_loop handleFileUpload_def)

theorem transcript_append_only_witness:
  "prefix [welcomeMessage 0]
     (messages (handleFileUpload
        [(File 1 (js ''lab.pdf''),
          Resolved \<lparr>success = True, response = [], session_id = None,
                    intermediate_steps = None, error = None,
                    message = Text (js ''3 chunks'')\<rparr>, 9)]
        (mount (js ''k3'') 0 initial_state)))"
  using transcript_append_only [of "mount (js ''k3'') 0 initial_state" 0 None Rejected 0 None
      "File 1 (js ''lab.pdf'')"
      "[(File 1 (js ''lab.pdf''),
          Resolved \<lparr>success = True, response = [], session_id = None,
                    intermediate_steps = None, error = None,
                    message = Text (js ''3 chunks'')\<rparr>, 9)]"]
  by (simp add: mounted_page)

section \<open>Clearing memory\<close>

text \<open>
  C7: \<open>clearMemory('conversation')\<close> on a page that holds a session identifier, answered
  with \<open>success\<close>, sends its request and leaves the transcript empty, and so does the
  handling of that answer in whatever state it finds; on a page whose session identifier
  is null no request leaves and the state, the transcript with it, is unchanged.
\<close>

theorem clear_conversation_empties_transcript:
  "(chat_reach c \<and> sessionId (page c) \<noteq> None \<and> success d \<longrightarrow>
      clearMemory_begin Conversation (page c)
        = Some (ClearRequest (sessionId (page c)) Conversation)
      \<and> messages (clearMemory Conversation (Resolved d) (page c)) = [])
   \<and> (success d \<longrightarrow> messages (clearMemory_finish Conversation (Resolved d) s) = [])
   \<and> (sessionId s = None \<longrightarrow> clearMemory_begin ty s = None \<and> clearMemory ty r s = s)"
proof -
  have "chat_reach c \<Longrightarrow> truthy (sessionId (page c))"
    using session_invariant by blast
  then show ?thesis
    by (auto simp: clearMemory_def clearMemory_begin_def clearMemory_finish_def truthy_def)
qed

theorem clear_conversation_empties_transcript_witness:
  "messages (clearMemory Conversation
      (Resolved \<lparr>success = True, response = [], session_id = None,
                 intermediate_steps = None, error = None, message = Text (js ''cleared'')\<rparr>)
      (mount (js ''k3'') 0 initial_state)) = []
   \<and> clearMemory Conversation Rejected initial_state = initial_state"
proof -
  let ?c0 = "\<lparr>page = mount (js ''k3'') 0 initial_state, inflight = []\<rparr>"
  let ?d = "\<lparr>success = True, response = [], session_id = None,
             intermediate_steps = None, error = None, message = Text (js ''cleared'')\<rparr>"
  have "chat_reach ?c0 \<and> sessionId (page ?c0) \<noteq> None \<and> success ?d"
    by (simp add: chat_reach.mounted mounted_page)
  moreover have "sessionId initial_state = None" by (simp add: initial_state_def)
  ultimately show ?thesis
    using clear_conversation_empties_transcript
      [of ?c0 ?d initial_state Conversation Rejected]
    by simp
qed

text \<open>
  C8: a clear whose target is the semantic store leaves the transcript as it is, for every
  state and every outcome of the round trip; the transcript is emptied only by a clear of
  the conversation that was sent and answered with \<open>success\<close>.
\<close>

theorem clear_semantic_leaves_transcript:
  "messages (clearMemory Semantic r s) = messages s
   \<and> messages (clearMemory_finish Semantic r s) = messages s
   \<and> messages (clearMemory ty r s) =
       (if ty = Conversation \<and> truthy (sessionId s) \<and> \<not> round_trip_failed r
        then [] else messages s)"
  by (cases r)
     (simp_all add: clearMemory_def clearMemory_begin_def clearMemory_finish_def
        round_trip_failed_def)

theorem clear_semantic_leaves_transcript_witness:
  "messages (clearMemory Semantic
      (Resolved \<lparr>success = True, response = [], session_id = None,
                 intermediate_steps = None, error = None, message = Text (js ''cleared'')\<rparr>)
      (mount (js ''k3'') 0 initial_state)) = [welcomeMessage 0]"
  using clear_semantic_leaves_transcript [of
      "Resolved \<lparr>success = True, response = [], session_id = None,
                 intermediate_steps = None, error = None, message = Text (js ''cleared'')\<rparr>"
      "mount (js ''k3'') 0 initial_state" Semantic]
  by (simp add: mounted_page)

section \<open>The session identifier\<close>

lemma minted_k30: "js ''k3'' @ toStringRadix 36 0 = js ''k30''"
  by (subst toStringRadix.simps) (simp add: digits36_def js_def)

lemma sendMessage_begin_accepted:
  "trim (inputMessage s) \<noteq> [] \<Longrightarrow> \<not> isLoading s \<Longrightarrow>
     snd (sendMessage_begin now s) = Some (QueryRequest (inputMessage s) (sessionId s))"
  by (simp add: sendMessage_begin_def)

lemma crashed_sendMessage_begin: "crashed (fst (sendMessage_begin now s)) = crashed s"
  by (simp add: sendMessage_begin_def)

lemma sessionId_sendMessage_begin: "sessionId (fst (sendMessage_begin now s)) = sessionId s"
  by (simp add: sendMessage_begin_def)

text \<open>
  C6, as the claim states it, fails twice. First: a page mounted with the identifier
  \<open>k30\<close> starts an upload of two files, sends a query while the first file is on its way,
  and adopts \<open>srv-42\<close> from the answer to the query; the upload loop, which read the
  identifier when it was started, then sends its second file with \<open>k30\<close>, a request later
  than the adoption that does not carry the identifier of the response. Second: a
  successful answer whose \<open>session_id\<close> is the empty string, which differs from the one
  sent, is not adopted.
\<close>

theorem stale_session_identifier_counterexample:
  "chat_reach
     \<lparr>page = sendMessage_finish (Some (js ''k30''))
               (Resolved \<lparr>success = True, response = js ''Hello'',
                           session_id = Some (js ''srv-42''), intermediate_steps = None,
                           error = None, message = Undefined\<rparr>) 2
               (fst (sendMessage_begin 1 (setInputMessage (js ''hi'')
                  (fst (upload_begin (Some (js ''k30'')) (File 1 (js ''a.txt''))
                     (mount (js ''k3'') 0 initial_state)))))),
      inflight = [PUpload (Some (js ''k30'')) (File 1 (js ''a.txt'')) [File 2 (js ''b.txt'')]]\<rparr>
   \<and> sessionId (sendMessage_finish (Some (js ''k30''))
               (Resolved \<lparr>success = True, response = js ''Hello'',
                           session_id = Some (js ''srv-42''), intermediate_steps = None,
                           error = None, message = Undefined\<rparr>) 2
               (fst (sendMessage_begin 1 (setInputMessage (js ''hi'')
                  (fst (upload_begin (Some (js ''k30'')) (File 1 (js ''a.txt''))
                     (mount (js ''k3'') 0 initial_state)))))))
       = Some (js ''srv-42'')
   \<and> snd (upload_next (Some (js ''k30'')) [File 2 (js ''b.txt'')]
           (upload_finish (File 1 (js ''a.txt'')) Rejected 3
              (sendMessage_finish (Some (js ''k30''))
                 (Resolved \<lparr>success = True, response = js ''Hello'',
                             session_id = Some (js ''srv-42''), intermediate_steps = None,
                             error = None, message = Undefined\<rparr>) 2
                 (fst (sendMessage_begin 1 (setInputMessage (js ''hi'')
                    (fst (upload_begin (Some (js ''k30'')) (File 1 (js ''a.txt''))
                       (mount (js ''k3'') 0 initial_state)))))))))
       = Some (UploadRequest (File 2 (js ''b.txt'')) (Some (js ''k30'')))
   \<and> Some (js ''k30'') \<noteq> Some (js ''srv-42'')
   \<and> sessionId (sendMessage_finish (Some (js ''k30''))
               (Resolved \<lparr>success = True, response = js ''Hello'',
                           session_id = Some [], intermediate_steps = None,
                           error = None, message = Undefined\<rparr>) 2
               (fst (sendMessage_begin 1 (setInputMessage (js ''hi'')
                  (mount (js ''k3'') 0 initial_state)))))
       = Some (js ''k30'')"
proof -
  let ?M = "mount (js ''k3'') 0 initial_state"
  let ?old = "Some (js ''k30'')"
  let ?F1 = "File 1 (js ''a.txt'')"
  let ?F2 = "File 2 (js ''b.txt'')"
  let ?D = "\<lparr>success = True, response = js ''Hello'', session_id = Some (js ''srv-42''),
             intermediate_steps = None, error = None, message = Undefined\<rparr>"
  let ?P1 = "fst (upload_begin ?old ?F1 ?M)"
  let ?P2 = "setInputMessage (js ''hi'') ?P1"
  let ?P3 = "fst (sendMessage_begin 1 ?P2)"
  let ?Q = "QueryRequest (js ''hi'') ?old"
  let ?P4 = "sendMessage_finish ?old (Resolved ?D) 2 ?P3"
  have idM: "sessionId ?M = ?old" by (simp add: mounted_page minted_k30)
  have differs: "js ''srv-42'' \<noteq> js ''k30''" by (simp add: js_def)
  have r0: "chat_reach \<lparr>page = ?M, inflight = []\<rparr>" by (rule chat_reach.mounted)
  have "chat_reach \<lparr>page = fst (upload_begin (sessionId (page \<lparr>page = ?M, inflight = []\<rparr>)) ?F1
                               (page \<lparr>page = ?M, inflight = []\<rparr>)),
                    inflight = inflight \<lparr>page = ?M, inflight = []\<rparr>
                      @ [PUpload (sessionId (page \<lparr>page = ?M, inflight = []\<rparr>)) ?F1 [?F2]]\<rparr>"
    by (rule chat_reach.upload_started[OF r0]) (simp add: mounted_page)
  then have r1: "chat_reach \<lparr>page = ?P1, inflight = [PUpload ?old ?F1 [?F2]]\<rparr>"
    by (simp add: idM)
  have p1: "\<not> crashed ?P1" "\<not> isLoading ?P1" "sessionId ?P1 = ?old"
    by (simp_all add: upload_begin_def mounted_page minted_k30)
  from chat_reach.typed[OF r1, of "js ''hi''"] p1
  have r2: "chat_reach \<lparr>page = ?P2, inflight = [PUpload ?old ?F1 [?F2]]\<rparr>" by simp
  have p2: "\<not> crashed ?P2" "\<not> isLoading ?P2" "sessionId ?P2 = ?old"
    "trim (inputMessage ?P2) \<noteq> []"
    using p1 trim_hi by (simp_all add: setInputMessage_def)
  have b: "sendMessage_begin 1 ?P2 = (?P3, Some ?Q)"
    using p2 sendMessage_begin_accepted[of ?P2 1] by (simp add: prod_eq_iff setInputMessage_def)
  have "chat_reach \<lparr>page = ?P3,
                    inflight = inflight \<lparr>page = ?P2, inflight = [PUpload ?old ?F1 [?F2]]\<rparr>
                      @ [PQuery ?Q]\<rparr>"
    using r2 b p2 by (intro chat_reach.send_issued[where now = 1]) simp_all
  then have r3: "chat_reach \<lparr>page = ?P3, inflight = [PUpload ?old ?F1 [?F2], PQuery ?Q]\<rparr>"
    by simp
  have p3: "\<not> crashed ?P3" "sessionId ?P3 = ?old"
    using p2 by (simp_all add: crashed_sendMessage_begin sessionId_sendMessage_begin)
  have "chat_reach \<lparr>page = sendMessage_finish (query_session_id ?Q) (Resolved ?D) 2
                              (page \<lparr>page = ?P3, inflight = [PUpload ?old ?F1 [?F2], PQuery ?Q]\<rparr>),
                    inflight = remove1 (PQuery ?Q)
                      (inflight \<lparr>page = ?P3, inflight = [PUpload ?old ?F1 [?F2], PQuery ?Q]\<rparr>)\<rparr>"
    by (rule chat_reach.query_done[OF r3]) (use p3 in simp_all)
  then have r4: "chat_reach \<lparr>page = ?P4, inflight = [PUpload ?old ?F1 [?F2]]\<rparr>"
    by simp
  have adopted: "sessionId ?P4 = Some (js ''srv-42'')"
    using differs by (simp add: sessionId_sendMessage_finish truthy_def js_def)
  have next_form: "snd (upload_next ?old [?F2] (upload_finish ?F1 Rejected 3 ?P4))
      = Some (UploadRequest ?F2 ?old)"
    by (simp add: upload_next_def upload_begin_def truthy_def js_def)
  let ?P3' = "fst (sendMessage_begin 1 (setInputMessage (js ''hi'') ?M))"
  have "sessionId ?P3' = ?old"
    by (simp add: sessionId_sendMessage_begin setInputMessage_def idM)
  then have not_adopted: "sessionId (sendMessage_finish ?old
      (Resolved \<lparr>success = True, response = js ''Hello'', session_id = Some [],
                 intermediate_steps = None, error = None, message = Undefined\<rparr>) 2 ?P3') = ?old"
    by (simp add: sessionId_sendMessage_finish truthy_def)
  from r4 adopted next_form differs not_adopted show ?thesis by simp
qed

text \<open>
  C6, amended: in every state the mounted page can reach it holds a non-empty session
  identifier (minted by the mount effect), and every call that is started carries the
  identifier the page holds at that moment: the query of \<open>sendMessage\<close>, the request of
  \<open>clearMemory\<close>, and every form of a \<open>handleFileUpload\<close> call. A query under way was sent with the identifier
  the page still holds; when the answer to it reports success and carries a non-empty
  session identifier other than the one sent, the page holds the identifier of the answer
  afterwards, and every call started from then on carries it.
\<close>

theorem session_identifier_of_calls_started:
  assumes "chat_reach c"
  shows "truthy (sessionId (page c))
    \<and> snd (sendMessage_begin now (setInputMessage v (page c)))
        = (if trim v = [] \<or> isLoading (page c) then None
           else Some (QueryRequest v (sessionId (page c))))
    \<and> clearMemory_begin ty (page c) = Some (ClearRequest (sessionId (page c)) ty)
    \<and> handleFileUpload_sent selectedFiles (page c)
        = map (\<lambda>x. UploadRequest (fst x) (sessionId (page c))) selectedFiles
    \<and> (\<forall>q d now'. PQuery q \<in> set (inflight c) \<and> success d \<and> truthy (session_id d)
            \<and> session_id d \<noteq> query_session_id q
          \<longrightarrow> query_session_id q = sessionId (page c)
            \<and> sessionId (sendMessage_finish (query_session_id q) (Resolved d) now' (page c))
                = session_id d
            \<and> snd (sendMessage_begin now (setInputMessage v
                  (sendMessage_finish (query_session_id q) (Resolved d) now' (page c))))
                = (if trim v = [] then None else Some (QueryRequest v (session_id d)))
            \<and> clearMemory_begin ty
                  (sendMessage_finish (query_session_id q) (Resolved d) now' (page c))
                = Some (ClearRequest (session_id d) ty)
            \<and> handleFileUpload_sent selectedFiles
                  (sendMessage_finish (query_session_id q) (Resolved d) now' (page c))
                = map (\<lambda>x. UploadRequest (fst x) (session_id d)) selectedFiles)"
proof -
  from session_invariant[OF assms] have
    t: "truthy (sessionId (page c))" and
    sent: "\<And>q. PQuery q \<in> set (inflight c) \<Longrightarrow> query_session_id q = sessionId (page c)"
    by simp_all
  have calls: "\<And>s. truthy (sessionId s) \<Longrightarrow>
      snd (sendMessage_begin now (setInputMessage v s))
        = (if trim v = [] \<or> isLoading s then None else Some (QueryRequest v (sessionId s)))
      \<and> clearMemory_begin ty s = Some (ClearRequest (sessionId s) ty)
      \<and> handleFileUpload_sent selectedFiles s
          = map (\<lambda>x. UploadRequest (fst x) (sessionId s)) selectedFiles"
    by (simp add: sendMessage_begin_def setInputMessage_def clearMemory_begin_def
        handleFileUpload_sent_def upload_loop_sent)
  have after: "\<And>q (d :: ResponseData) now'. success d \<Longrightarrow> truthy (session_id d) \<Longrightarrow>
      session_id d \<noteq> query_session_id q \<Longrightarrow>
      sessionId (sendMessage_finish (query_session_id q) (Resolved d) now' (page c)) = session_id d
      \<and> \<not> isLoading (sendMessage_finish (query_session_id q) (Resolved d) now' (page c))"
    by (simp add: sessionId_sendMessage_finish isLoading_sendMessage_finish)
  show ?thesis
  proof (intro conjI allI impI)
    show "truthy (sessionId (page c))" by (rule t)
  next
    show "snd (sendMessage_begin now (setInputMessage v (page c)))
        = (if trim v = [] \<or> isLoading (page c) then None
           else Some (QueryRequest v (sessionId (page c))))"
      using calls[OF t] by simp
  next
    show "clearMemory_begin ty (page c) = Some (ClearRequest (sessionId (page c)) ty)"
      using calls[OF t] by simp
  next
    show "handleFileUpload_sent selectedFiles (page c)
        = map (\<lambda>x. UploadRequest (fst x) (sessionId (page c))) selectedFiles"
      using calls[OF t] by simp
  next
    fix q and d :: ResponseData and now'
    assume h: "PQuery q \<in> set (inflight c) \<and> success d \<and> truthy (session_id d)
            \<and> session_id d \<noteq> query_session_id q"
    let ?post = "sendMessage_finish (query_session_id q) (Resolved d) now' (page c)"
    from h after[of d q now'] have
      p: "sessionId ?post = session_id d" "\<not> isLoading ?post" by simp_all
    with h have tp: "truthy (sessionId ?post)" by simp
    show "query_session_id q = sessionId (page c)" using h sent by simp
    show "sessionId ?post = session_id d" by (rule p)
    show "snd (sendMessage_begin now (setInputMessage v ?post))
                = (if trim v = [] then None else Some (QueryRequest v (session_id d)))"
      using calls[OF tp] p by simp
    show "clearMemory_begin ty ?post = Some (ClearRequest (session_id d) ty)"
      using calls[OF tp] p by simp
    show "handleFileUpload_sent selectedFiles ?post
                = map (\<lambda>x. UploadRequest (fst x) (session_id d)) selectedFiles"
      using calls[OF tp] p by simp
  qed
qed

theorem session_identifier_of_calls_started_witness:
  "sessionId (sendMessage_finish (Some (js ''k3'' @ toStringRadix 36 0))
      (Resolved \<lparr>success = True, response = js ''Hello'', session_id = Some (js ''srv-42''),
                 intermediate_steps = None, error = None, message = Undefined\<rparr>) 7
      (fst (sendMessage_begin 1 (setInputMessage (js ''hi'') (mount (js ''k3'') 0 initial_state)))))
     = Some (js ''srv-42'')
   \<and> clearMemory_begin Semantic (sendMessage_finish (Some (js ''k3'' @ toStringRadix 36 0))
      (Resolved \<lparr>success = True, response = js ''Hello'', session_id = Some (js ''srv-42''),
                 intermediate_steps = None, error = None, message = Undefined\<rparr>) 7
      (fst (sendMessage_begin 1 (setInputMessage (js ''hi'') (mount (js ''k3'') 0 initial_state)))))
     = Some (ClearRequest (Some (js ''srv-42'')) Semantic)
   \<and> snd (sendMessage_begin 8 (setInputMessage (js ''hi'')
       (sendMessage_finish (Some (js ''k3'' @ toStringRadix 36 0))
      (Resolved \<lparr>success = True, response = js ''Hello'', session_id = Some (js ''srv-42''),
                 intermediate_steps = None, error = None, message = Undefined\<rparr>) 7
      (fst (sendMessage_begin 1 (setInputMessage (js ''hi'') (mount (js ''k3'') 0 initial_state)))))))
     = Some (QueryRequest (js ''hi'') (Some (js ''srv-42'')))"
proof -
  let ?s = "fst (sendMessage_begin 1 (setInputMessage (js ''hi'') (mount (js ''k3'') 0 initial_state)))"
  let ?q = "QueryRequest (js ''hi'') (Some (js ''k3'' @ toStringRadix 36 0))"
  let ?c = "\<lparr>page = ?s, inflight = [PQuery ?q]\<rparr>"
  let ?d = "\<lparr>success = True, response = js ''Hello'', session_id = Some (js ''srv-42''),
             intermediate_steps = None, error = None, message = Undefined\<rparr>"
  have differs: "js ''srv-42'' \<noteq> js ''k30''" by (simp add: js_def)
  have h: "PQuery ?q \<in> set (inflight ?c) \<and> success ?d \<and> truthy (session_id ?d)
        \<and> session_id ?d \<noteq> query_session_id ?q"
    using differs by (simp add: truthy_def minted_k30) (simp add: js_def)
  from session_identifier_of_calls_started[OF query_under_way(1), of 8 "js ''hi''" Semantic "[]"]
  have "\<forall>q d now'. PQuery q \<in> set (inflight ?c) \<and> success d \<and> truthy (session_id d)
            \<and> session_id d \<noteq> query_session_id q
          \<longrightarrow> sessionId (sendMessage_finish (query_session_id q) (Resolved d) now' (page ?c))
                = session_id d
            \<and> snd (sendMessage_begin 8 (setInputMessage (js ''hi'')
                  (sendMessage_finish (query_session_id q) (Resolved d) now' (page ?c))))
                = (if trim (js ''hi'') = [] then None else Some (QueryRequest (js ''hi'') (session_id d)))
            \<and> clearMemory_begin Semantic
                  (sendMessage_finish (query_session_id q) (Resolved d) now' (page ?c))
                = Some (ClearRequest (session_id d) Semantic)"
    by blast
  from this[rule_format, OF h, of 7] trim_hi show ?thesis by simp
qed

section \<open>The compare page keeps at most three distinct stocks\<close>

lemma removeStock_keeps_bounds:
  assumes "length (compareStocks s) \<le> 3" "distinct (map ticker (compareStocks s))"
  shows "length (compareStocks (removeStock tk s)) \<le> 3"
    and "distinct (map ticker (compareStocks (removeStock tk s)))"
  using assms
  by (auto simp: removeStock_def distinct_map_filter intro: le_trans[OF length_filter_le])

text \<open>
  The list on the page is short and free of repeated tickers, and so is the list every
  waiting call will extend, which moreover lacks the ticker that call asked for.
\<close>

lemma compare_invariant:
  assumes "\<forall>t outcome. getScore t outcome \<longrightarrow> getScore_answers toUpperCase t outcome"
    and "\<forall>outcome. compareStocksApi outcome \<longrightarrow> compareStocks_answers outcome"
  shows "compare_reach toUpperCase getScore compareStocksApi c \<Longrightarrow>
     (length (compareStocks (shownPage c)) \<le> 3
      \<and> distinct (map ticker (compareStocks (shownPage c))))
     \<and> (\<forall>(shown, t) \<in> set (waiting c).
           length shown < 3 \<and> distinct (map ticker shown)
           \<and> toUpperCase t \<notin> set (map ticker shown))"
proof (induction rule: compare_reach.induct)
  case opened
  then show ?case by (simp add: compare_initial_def)
next
  case (ticker_typed c v)
  then show ?case by simp
next
  case (add_refused c s')
  then show ?case by (auto simp: handleAddStock_begin_def split: if_splits)
next
  case (add_asked c s' t)
  then show ?case
    by (auto simp: handleAddStock_begin_def list_ex_iff split: if_splits)
next
  case (add_answered c shown t outcome)
  then have w: "length shown < 3" "distinct (map ticker shown)"
    "toUpperCase t \<notin> set (map ticker shown)"
    by auto
  have "length (compareStocks (handleAddStock_finish shown outcome (shownPage c))) \<le> 3
        \<and> distinct (map ticker (compareStocks (handleAddStock_finish shown outcome (shownPage c))))"
  proof (cases outcome)
    case None
    with add_answered.IH show ?thesis by (simp add: handleAddStock_finish_def)
  next
    case (Some stock)
    with add_answered.hyps(3) assms(1) have "getScore_answers toUpperCase t (Some stock)"
      by blast
    then have "ticker stock = toUpperCase t"
      by (simp add: getScore_answers_def)
    with w Some show ?thesis by (simp add: handleAddStock_finish_def)
  qed
  moreover have "set (remove1 (shown, t) (waiting c)) \<subseteq> set (waiting c)"
    by (rule set_remove1_subset)
  with add_answered.IH have "\<forall>(shown, t) \<in> set (remove1 (shown, t) (waiting c)).
        length shown < 3 \<and> distinct (map ticker shown)
        \<and> toUpperCase t \<notin> set (map ticker shown)"
    by blast
  ultimately show ?case by simp
next
  case (removed c tk)
  then show ?case by (simp add: removeStock_keeps_bounds)
next
  case (quick_asked c)
  then show ?case by (simp add: addQuickCompare_begin_def)
next
  case (quick_answered c outcome)
  with assms(2) have "compareStocks_answers outcome" by simp
  with quick_answered.IH show ?case
    by (cases outcome) (simp_all add: addQuickCompare_finish_def compareStocks_answers_def)
qed

lemma handleAddStock_refuses:
  assumes "length (compareStocks s) \<ge> 3 \<or> trim (searchTicker s) = []
           \<or> toUpperCase (searchTicker s) \<in> set (map ticker (compareStocks s))"
  shows "handleAddStock_begin toUpperCase s = (s, None)"
    and "handleAddStock toUpperCase getScore s = s"
  using assms by (auto simp: handleAddStock_def handleAddStock_begin_def list_ex_iff)

text \<open>The page after a quick comparison was asked for and answered with \<open>stocks\<close>.\<close>

lemma quick_compare_reached:
  assumes "compareStocksApi (Some stocks)"
  shows "compare_reach toUpperCase getScore compareStocksApi
     \<lparr>shownPage = \<lparr>compareStocks = stocks, searchTicker = [], loading = False\<rparr>,
      waiting = [], quickAsked = 0\<rparr>"
proof -
  let ?c0 = "\<lparr>shownPage = compare_initial, waiting = [], quickAsked = 0\<rparr> :: 'a compare_sys"
  have "compare_reach toUpperCase getScore compareStocksApi ?c0"
    by (rule compare_reach.opened)
  from compare_reach.quick_asked[OF this]
  have r1: "compare_reach toUpperCase getScore compareStocksApi
      \<lparr>shownPage = \<lparr>compareStocks = [], searchTicker = [], loading = True\<rparr>,
       waiting = [], quickAsked = Suc 0\<rparr>"
    by (simp add: addQuickCompare_begin_def compare_initial_def)
  from compare_reach.quick_answered[OF r1 _ assms] show ?thesis
    by (simp add: addQuickCompare_finish_def)
qed

text \<open>
  C9, as the claim states it, fails: \<open>addQuickCompare\<close> stores what
  \<open>ottoAPI.compareStocks\<close> resolves to without looking at it, and the claim assumes nothing
  of that answer. With \<open>getScore\<close> as the claim assumes, an answer of four stocks leaves
  four stocks on the page, and an answer that names a ticker twice leaves it twice.
\<close>

theorem quick_compare_counterexample:
  "compare_reach asciiUpperCase (getScore_answers asciiUpperCase) compareStocks_unchecked
     \<lparr>shownPage =
        \<lparr>compareStocks = [\<lparr>ticker = js ''AAPL'', otherFields = ()\<rparr>,
                          \<lparr>ticker = js ''MSFT'', otherFields = ()\<rparr>,
                          \<lparr>ticker = js ''JNJ'', otherFields = ()\<rparr>,
                          \<lparr>ticker = js ''KO'', otherFields = ()\<rparr>],
         searchTicker = [], loading = False\<rparr>,
      waiting = [], quickAsked = 0\<rparr>
   \<and> \<not> length [\<lparr>ticker = js ''AAPL'', otherFields = ()\<rparr>,
                \<lparr>ticker = js ''MSFT'', otherFields = ()\<rparr>,
                \<lparr>ticker = js ''JNJ'', otherFields = ()\<rparr>,
                \<lparr>ticker = js ''KO'', otherFields = ()\<rparr>] \<le> 3
   \<and> compare_reach asciiUpperCase (getScore_answers asciiUpperCase) compareStocks_unchecked
     \<lparr>shownPage =
        \<lparr>compareStocks = [\<lparr>ticker = js ''AAPL'', otherFields = ()\<rparr>,
                          \<lparr>ticker = js ''AAPL'', otherFields = ()\<rparr>],
         searchTicker = [], loading = False\<rparr>,
      waiting = [], quickAsked = 0\<rparr>
   \<and> \<not> distinct (map ticker [\<lparr>ticker = js ''AAPL'', otherFields = ()\<rparr>,
                              \<lparr>ticker = js ''AAPL'', otherFields = ()\<rparr>])"
  by (simp add: quick_compare_reached compareStocks_unchecked_def)

text \<open>
  C9, amended: with \<open>getScore(t)\<close> resolving only to a stock whose ticker is \<open>t\<close> in upper
  case, and with \<open>ottoAPI.compareStocks\<close>, whose answer \<open>addQuickCompare\<close> stores
  unchecked, resolving only to at most three stocks of different tickers, the list holds at
  most three stocks and no ticker twice in every state the compare page can reach, its
  calls answered in any order. \<open>handleAddStock\<close> returns without asking and without
  changing anything when the list already holds three stocks, when the input is blank, or
  when the input in upper case is the ticker of a listed stock; what \<open>removeStock\<close> leaves
  is a subsequence of the list it found.
\<close>

theorem compare_list_bounded_and_distinct:
  assumes "compare_reach toUpperCase getScore compareStocksApi c"
    and "\<forall>t outcome. getScore t outcome \<longrightarrow> getScore_answers toUpperCase t outcome"
    and "\<forall>outcome. compareStocksApi outcome \<longrightarrow> compareStocks_answers outcome"
  shows "length (compareStocks (shownPage c)) \<le> 3
    \<and> distinct (map ticker (compareStocks (shownPage c)))
    \<and> (length (compareStocks s) \<ge> 3 \<or> trim (searchTicker s) = []
         \<or> toUpperCase (searchTicker s) \<in> set (map ticker (compareStocks s))
        \<longrightarrow> handleAddStock_begin toUpperCase s = (s, None)
          \<and> handleAddStock toUpperCase score s = s)
    \<and> subseq (compareStocks (removeStock tk s)) (compareStocks s)"
  using compare_invariant[OF assms(2,3) assms(1)]
    handleAddStock_refuses(1)[of s toUpperCase]
    handleAddStock_refuses(2)[of s toUpperCase score]
  by (auto simp: removeStock_def)

theorem compare_list_bounded_and_distinct_witness:
  "compare_reach asciiUpperCase (getScore_answers asciiUpperCase) compareStocks_answers
     \<lparr>shownPage = \<lparr>compareStocks = [\<lparr>ticker = js ''AAPL'', otherFields = ()\<rparr>],
                    searchTicker = js ''aapl'', loading = False\<rparr>,
      waiting = [], quickAsked = 0\<rparr>
   \<and> handleAddStock asciiUpperCase (\<lambda>t. Some \<lparr>ticker = asciiUpperCase t, otherFields = ()\<rparr>)
        \<lparr>compareStocks = [\<lparr>ticker = js ''AAPL'', otherFields = ()\<rparr>],
         searchTicker = js ''aapl'', loading = False\<rparr>
      = \<lparr>compareStocks = [\<lparr>ticker = js ''AAPL'', otherFields = ()\<rparr>],
         searchTicker = js ''aapl'', loading = False\<rparr>"
proof -
  let ?stock = "\<lparr>ticker = js ''AAPL'', otherFields = ()\<rparr>"
  let ?s1 = "\<lparr>compareStocks = [], searchTicker = js ''aapl'', loading = False\<rparr> :: unit compare_state"
  let ?s2 = "\<lparr>compareStocks = [], searchTicker = js ''aapl'', loading = True\<rparr> :: unit compare_state"
  let ?s4 = "\<lparr>compareStocks = [?stock], searchTicker = js ''aapl'', loading = False\<rparr>"
  let ?reach = "compare_reach asciiUpperCase (getScore_answers asciiUpperCase)
                  (compareStocks_answers :: unit OttoScore list option \<Rightarrow> bool)"
  have up: "asciiUpperCase (js ''aapl'') = js ''AAPL''"
    by (simp add: asciiUpperCase_def js_def)
  have tr: "trim (js ''aapl'') \<noteq> []"
    by (simp add: trim_def whitespace_def js_def)
  have "?reach \<lparr>shownPage = compare_initial, waiting = [], quickAsked = 0\<rparr>"
    by (rule compare_reach.opened)
  from compare_reach.ticker_typed[OF this, of "js ''aapl''"]
  have r1: "?reach \<lparr>shownPage = ?s1, waiting = [], quickAsked = 0\<rparr>"
    by (simp add: compare_initial_def)
  have b: "handleAddStock_begin asciiUpperCase ?s1 = (?s2, Some (js ''aapl''))"
    using tr by (simp add: handleAddStock_begin_def)
  from compare_reach.add_asked[OF r1] b
  have r2: "?reach \<lparr>shownPage = ?s2, waiting = [([], js ''aapl'')], quickAsked = 0\<rparr>"
    by simp
  have "getScore_answers asciiUpperCase (js ''aapl'') (Some ?stock)"
    by (simp add: getScore_answers_def up)
  from compare_reach.add_answered[OF r2 _ this, of "[]"]
  have r3: "?reach
      \<lparr>shownPage = \<lparr>compareStocks = [?stock], searchTicker = [], loading = False\<rparr>,
       waiting = [], quickAsked = 0\<rparr>"
    by (simp add: handleAddStock_finish_def)
  from compare_reach.ticker_typed[OF r3, of "js ''aapl''"]
  have r4: "?reach \<lparr>shownPage = ?s4, waiting = [], quickAsked = 0\<rparr>"
    by simp
  have "asciiUpperCase (searchTicker ?s4) \<in> set (map ticker (compareStocks ?s4))"
    by (simp add: up)
  with compare_list_bounded_and_distinct[OF r4, of ?s4] r4 show ?thesis
    by blast
qed

section \<open>Searching on the calendar page\<close>

lemma str_includes_sublist: "str_includes s t = sublist t s"
  by (induction s) (simp_all add: sublist_Cons_right)

text \<open>The test of the source is the containment the claim speaks of.\<close>

lemma includes_lowered:
  "str_includes (toLowerCase hay) (toLowerCase q) = contains_ignoring_case toLowerCase hay q"
  by (simp add: str_includes_sublist contains_ignoring_case_def sublist_def)

text \<open>Trimming leaves nothing exactly of the blank strings.\<close>

lemma trim_blank: "(trim q = []) = blank q"
proof -
  let ?ws = "\<lambda>c. c \<in> set whitespace"
  have "(trim q = []) = (\<forall>c \<in> set (dropWhile ?ws q). ?ws c)"
    unfolding trim_def by (simp only: rev_is_Nil_conv dropWhile_eq_Nil_conv set_rev)
  also have "\<dots> = (dropWhile ?ws q = [])"
  proof
    assume a: "\<forall>c \<in> set (dropWhile ?ws q). ?ws c"
    show "dropWhile ?ws q = []"
    proof (rule ccontr)
      assume n: "dropWhile ?ws q \<noteq> []"
      then have "\<not> ?ws (hd (dropWhile ?ws q))" by (rule hd_dropWhile)
      moreover from n have "hd (dropWhile ?ws q) \<in> set (dropWhile ?ws q)" by simp
      ultimately show False using a by blast
    qed
  next
    assume e: "dropWhile ?ws q = []"
    show "\<forall>c \<in> set (dropWhile ?ws q). ?ws c" unfolding e by simp
  qed
  also have "\<dots> = blank q"
    by (simp only: dropWhile_eq_Nil_conv blank_def list_all_iff)
  finally show ?thesis .
qed

text \<open>
  C10: \<open>handleSearch\<close> sets the search results to the empty list when the query is blank,
  and otherwise to exactly the entries of \<open>calendarStocks\<close>, in their order, whose ticker
  or company name contains the query string case-insensitively; the selected stocks are
  what they were.
\<close>

theorem handleSearch_results:
  "searchResults (handleSearch toLowerCase calendarStocks s) =
     (if blank (calSearchTicker s) then []
      else filter (\<lambda>stock.
               contains_ignoring_case toLowerCase (calTicker stock) (calSearchTicker s)
             \<or> contains_ignoring_case toLowerCase (companyName stock) (calSearchTicker s))
             calendarStocks)
   \<and> selectedStocks (handleSearch toLowerCase calendarStocks s) = selectedStocks s"
  by (simp add: handleSearch_def includes_lowered trim_blank)

theorem handleSearch_results_witness:
  "searchResults (handleSearch asciiLowerCase
      [\<lparr>calTicker = js ''JNJ'', companyName = js ''Johnson & Johnson'', calOther = ()\<rparr>,
       \<lparr>calTicker = js ''KO'', companyName = js ''Coca-Cola'', calOther = ()\<rparr>]
      \<lparr>selectedStocks = [], calSearchTicker = js ''john'', searchResults = []\<rparr>)
   = [\<lparr>calTicker = js ''JNJ'', companyName = js ''Johnson & Johnson'', calOther = ()\<rparr>]
   \<and> searchResults (handleSearch asciiLowerCase
      [\<lparr>calTicker = js ''JNJ'', companyName = js ''Johnson & Johnson'', calOther = ()\<rparr>,
       \<lparr>calTicker = js ''KO'', companyName = js ''Coca-Cola'', calOther = ()\<rparr>]
      \<lparr>selectedStocks = [], calSearchTicker = [0x3000, 0x00A0], searchResults = []\<rparr>)
   = []"
proof -
  have "\<not> blank (js ''john'')" by (simp add: blank_def whitespace_def js_def)
  moreover have "blank [0x3000, 0x00A0]" by (simp add: blank_def whitespace_def)
  moreover have "contains_ignoring_case asciiLowerCase (js ''Johnson & Johnson'') (js ''john'')"
    unfolding includes_lowered[symmetric] by code_simp
  moreover have "\<not> contains_ignoring_case asciiLowerCase (js ''JNJ'') (js ''john'')"
    unfolding includes_lowered[symmetric] by code_simp
  moreover have "\<not> contains_ignoring_case asciiLowerCase (js ''KO'') (js ''john'')"
    unfolding includes_lowered[symmetric] by code_simp
  moreover have "\<not> contains_ignoring_case asciiLowerCase (js ''Coca-Cola'') (js ''john'')"
    unfolding includes_lowered[symmetric] by code_simp
  ultimately show ?thesis
    using handleSearch_results [of asciiLowerCase
      "[\<lparr>calTicker = js ''JNJ'', companyName = js ''Johnson & Johnson'', calOther = ()\<rparr>,
        \<lparr>calTicker = js ''KO'', companyName = js ''Coca-Cola'', calOther = ()\<rparr>]"
      "\<lparr>selectedStocks = [], calSearchTicker = js ''john'', searchResults = []\<rparr>"]
      handleSearch_results [of asciiLowerCase
      "[\<lparr>calTicker = js ''JNJ'', companyName = js ''Johnson & Johnson'', calOther = ()\<rparr>,
        \<lparr>calTicker = js ''KO'', companyName = js ''Coca-Cola'', calOther = ()\<rparr>]"
      "\<lparr>selectedStocks = [], calSearchTicker = [0x3000, 0x00A0], searchResults = []\<rparr>"]
    by simp
qed

section \<open>Denied submissions are never run\<close>

text \<open>
  C1: a submission that contains an import of a deny-listed module resolves to the verdict
  \<open>Denied\<close>, with the reason the admission check gives, and the state of the host is what
  it was: the allocation counter has not moved and nothing was executed.
\<close>

theorem denied_import_never_executed:
  assumes "Import m \<in> set code" and "m \<in> set (deny_list p)"
  shows "(\<exists>reason. static_admission_check p code = Some reason
            \<and> fst (submit p isolated code st) = Denied reason)
         \<and> snd (submit p isolated code st) = st
         \<and> allocated (snd (submit p isolated code st)) = allocated st
         \<and> executed (snd (submit p isolated code st)) = executed st"
proof -
  from assms(2) have "forbidden p (Import m)" by simp
  with assms(1) have "find (forbidden p) code \<noteq> None"
    by (auto simp: find_None_iff)
  then obtain reason where "static_admission_check p code = Some reason"
    by (auto simp: static_admission_check_def)
  then show ?thesis by (simp add: submit_def)
qed

theorem denied_import_never_executed_witness:
  "submit \<lparr>deny_list = [''os'', ''subprocess''], allow_list = [''math'']\<rparr> (\<lambda>code. Ran ''hi'')
     [Import ''os'', Identifier ''os'', OtherNode] \<lparr>allocated = 0, executed = []\<rparr>
   = (Denied ''import of os is not allowed'', \<lparr>allocated = 0, executed = []\<rparr>)"
proof -
  let ?p = "\<lparr>deny_list = [''os'', ''subprocess''], allow_list = [''math'']\<rparr>"
  let ?code = "[Import ''os'', Identifier ''os'', OtherNode]"
  have a: "Import ''os'' \<in> set ?code" by simp
  have b: "''os'' \<in> set (deny_list ?p)" by simp
  have c: "static_admission_check ?p ?code = Some ''import of os is not allowed''"
    by (simp add: static_admission_check_def)
  from denied_import_never_executed[OF a b, of "\<lambda>code. Ran ''hi''" "\<lparr>allocated = 0, executed = []\<rparr>"] c
  show ?thesis by (auto simp: prod_eq_iff)
qed

end
